theory Spec2Isabelle
  imports Main "HOL-Library.Word" "HOL-Library.AList"
begin

section \<open>The connection pool (package topology, pool.go)\<close>

text \<open>
  A \<open>*connection\<close> and a \<open>*pool\<close> are pointers: connections live in a store indexed
  by their address, and a pool knows its own address (\<open>self\<close>) for the ownership
  test \<open>c.pool != p\<close>. The counters \<open>nextid\<close> and \<open>generation\<close> are \<open>uint64\<close>;
  \<open>atomic.AddUint64\<close> wraps around.
\<close>

type_synonym addr = nat
type_synonym pool_ref = nat

datatype error =
    ErrPoolConnected
  | ErrPoolDisconnected
  | ErrWrongPool
  | ConnectionError
  | NilDereference
  | ErrNonPrimaryRP
  | ErrUnacknowledgedWrite
  | ErrCollation
  | External nat

text \<open>The three values that the field \<open>connected\<close> of a pool takes.\<close>

datatype connectivity = Disconnected | Disconnecting | Connected

text \<open>
  The fields of \<open>connection\<close> that the pool reads and writes. \<open>nc\<close> is True while the
  transport \<open>c.nc\<close> is not nil; \<open>close_fails\<close> says whether \<open>c.nc.Close()\<close> will
  report an error.
\<close>

record connection =
  c_pool :: "pool_ref option"
  poolID :: "64 word"
  c_generation :: "64 word"
  nc :: bool
  close_fails :: bool

text \<open>
  \<open>conns\<close> is the buffered channel of idle connections (FIFO, capacity \<open>cap\<close>);
  \<open>opened\<close> is the map from pool id to connection, kept as an association list so that
  it can be iterated. \<open>dialed\<close> counts the calls of \<open>newConnection\<close>.
\<close>

record pool =
  self :: pool_ref
  nextid :: "64 word"
  conns :: "addr list"
  cap :: nat
  generation :: "64 word"
  connected :: connectivity
  opened :: "(64 word \<times> addr) list"
  dialed :: nat

type_synonym store = "addr \<Rightarrow> connection option"
type_synonym world = "pool \<times> store"

definition newPool :: "pool_ref \<Rightarrow> nat \<Rightarrow> pool" where
  "newPool ref sz = \<lparr> self = ref, nextid = 0, conns = [], cap = sz, generation = 0,
     connected = Disconnected, opened = [], dialed = 0 \<rparr>"

text \<open>\<open>func (p *pool) drain() { atomic.AddUint64(&p.generation, 1) }\<close>\<close>

definition drain :: "pool \<Rightarrow> pool" where
  "drain p = p\<lparr> generation := generation p + 1 \<rparr>"

text \<open>\<open>func (p *pool) expired(generation uint64) bool\<close>\<close>

definition expired :: "pool \<Rightarrow> 64 word \<Rightarrow> bool" where
  "expired p g = (g < generation p)"

text \<open>
  Modelled from the spec: \<open>(*connection).expired\<close> is not part of the sources at hand;
  a connection is expired iff its recorded generation is less than the current generation
  of its pool.
\<close>

definition c_expired :: "pool \<Rightarrow> connection \<Rightarrow> bool" where
  "c_expired p c = expired p (c_generation c)"

text \<open>\<open>connect\<close>: compare-and-swap from disconnected to connected, then one generation step.\<close>

definition connect :: "pool \<Rightarrow> error option \<times> pool" where
  "connect p =
     (if connected p \<noteq> Disconnected then (Some ErrPoolConnected, p)
      else (None, p\<lparr> connected := Connected, generation := generation p + 1 \<rparr>))"

text \<open>
  \<open>close\<close>: ownership test, removal from \<open>opened\<close>, then the transport is closed unless
  it is already nil. An address that is not in the store is a nil pointer: reading
  \<open>c.pool\<close> panics, which the model reports as \<open>NilDereference\<close>.
\<close>

definition close :: "world \<Rightarrow> addr \<Rightarrow> error option \<times> world" where
  "close w a =
     (case w of (p, h) \<Rightarrow>
       (case h a of
          None \<Rightarrow> (Some NilDereference, w)
        | Some c \<Rightarrow>
           if c_pool c \<noteq> Some (self p) then (Some ErrWrongPool, w)
           else
             let p' = p\<lparr> opened := AList.delete (poolID c) (opened p) \<rparr> in
             if \<not> nc c then (None, (p', h))
             else
               let h' = h(a \<mapsto> c\<lparr> nc := False \<rparr>) in
               if close_fails c then (Some ConnectionError, (p', h'))
               else (None, (p', h'))))"

text \<open>
  \<open>put\<close>: ownership test; a pool that is not connected or a stale connection closes the
  connection; otherwise the non-blocking send on \<open>conns\<close> caches it when there is room
  and closes it when the channel is full.
\<close>

definition put :: "world \<Rightarrow> addr \<Rightarrow> error option \<times> world" where
  "put w a =
     (case w of (p, h) \<Rightarrow>
       (case h a of
          None \<Rightarrow> (Some NilDereference, w)
        | Some c \<Rightarrow>
           if c_pool c \<noteq> Some (self p) then (Some ErrWrongPool, w)
           else if connected p \<noteq> Connected \<or> c_expired p c then close w a
           else if length (conns p) < cap p then (None, (p\<lparr> conns := conns p @ [a] \<rparr>, h))
           else close w a))"

text \<open>
  What \<open>get\<close> meets outside the pool: whether the context is done (\<open>ctx_err\<close>, the
  value of \<open>ctx.Err()\<close>), which
  ready case the \<open>select\<close> takes when both the channel and \<open>ctx.Done()\<close> are ready
  (\<open>prefer_ctx\<close>), the outcome of \<open>newConnection\<close> (\<open>dial_err\<close>; \<open>new_addr\<close>, the
  address of the connection it allocates; \<open>new_close_fails\<close>, whether closing its
  transport will report an error), and the value of \<open>connected\<close> that the second
  atomic load sees after the connection has been created (\<open>connected_after\<close>: another
  goroutine may have started a disconnect meanwhile).
\<close>

record get_env =
  ctx_err :: "error option"
  prefer_ctx :: bool
  dial_err :: "error option"
  new_addr :: addr
  new_close_fails :: bool
  connected_after :: connectivity

text \<open>
  The default case of the \<open>select\<close> in \<open>get\<close>: nothing idle and the context not done.
\<close>

definition get_new :: "get_env \<Rightarrow> world \<Rightarrow> (error + addr) \<times> world" where
  "get_new env w =
     (case w of (p, h) \<Rightarrow>
        let p1 = p\<lparr> dialed := dialed p + 1 \<rparr> in
        (case dial_err env of
           Some e \<Rightarrow> (Inl e, (p1, h))
         | None \<Rightarrow>
            let p2 = p1\<lparr> nextid := nextid p1 + 1 \<rparr>;
                c = \<lparr> c_pool = Some (self p2), poolID = nextid p2,
                      c_generation = generation p2, nc = True,
                      close_fails = new_close_fails env \<rparr>;
                h2 = h(new_addr env \<mapsto> c);
                p3 = p2\<lparr> connected := connected_after env \<rparr>
            in if connected p3 \<noteq> Connected
               then (Inl ErrPoolDisconnected, snd (close (p3, h2) (new_addr env)))
               else (Inr (new_addr env),
                     (p3\<lparr> opened := AList.update (poolID c) (new_addr env) (opened p3) \<rparr>, h2))))"

text \<open>
  \<open>get\<close>, by recursion on the idle channel. The recursive call \<open>p.get(ctx)\<close> after a stale
  idle connection sees a shorter channel. The \<open>go p.close(c)\<close> of that branch only
  touches \<open>opened\<close> and the transport of \<open>c\<close>, so it is run here at once.
\<close>

fun get_from :: "get_env \<Rightarrow> addr list \<Rightarrow> world \<Rightarrow> (error + addr) \<times> world" where
  "get_from env [] w =
     (case w of (p, h) \<Rightarrow>
        if connected p \<noteq> Connected then (Inl ErrPoolDisconnected, w)
        else (case ctx_err env of
                Some e \<Rightarrow> (Inl e, w)
              | None \<Rightarrow> get_new env w))"
| "get_from env (a # as) w =
     (case w of (p, h) \<Rightarrow>
        if connected p \<noteq> Connected then (Inl ErrPoolDisconnected, w)
        else if ctx_err env \<noteq> None \<and> prefer_ctx env then (Inl (the (ctx_err env)), w)
        else
          let p1 = p\<lparr> conns := as \<rparr> in
          (case h a of
             None \<Rightarrow> (Inl NilDereference, (p1, h))
           | Some c \<Rightarrow>
              if c_expired p1 c then get_from env as (snd (close (p1, h) a))
              else (Inr a, (p1, h))))"

definition get :: "get_env \<Rightarrow> world \<Rightarrow> (error + addr) \<times> world" where
  "get env w = get_from env (conns (fst w)) w"

subsection \<open>disconnect\<close>

text \<open>
  Times are nanoseconds. \<open>time.Time.Sub\<close> saturates at the bounds of \<open>Duration\<close>
  (an \<open>int64\<close>).
\<close>

definition second :: int where
  "second = 1000000000"

definition time_Sub :: "int \<Rightarrow> int \<Rightarrow> int" where
  "time_Sub t u = max (- (2 ^ 63)) (min (2 ^ 63 - 1) (t - u))"

text \<open>
  \<open>time.NewTimer(d)\<close> started at \<open>t0\<close> sends on its channel once \<open>d\<close> has passed; a
  duration that is zero or negative has passed at once.
\<close>

definition timer_fires_at :: "int \<Rightarrow> int \<Rightarrow> int" where
  "timer_fires_at t0 d = t0 + max 0 d"

text \<open>The first loop of \<open>disconnect\<close>: every idle connection is received and closed.\<close>

fun close_all :: "world \<Rightarrow> addr list \<Rightarrow> world" where
  "close_all w [] = w"
| "close_all w (a # as) = close_all (snd (close w a)) as"

definition clear_idle :: "world \<Rightarrow> world" where
  "clear_idle w = (case w of (p, h) \<Rightarrow> close_all (p\<lparr> conns := [] \<rparr>, h) (conns p))"

text \<open>
  While \<open>disconnect\<close> waits, the holders of checked-out connections hand them back with
  \<open>put\<close>: \<open>returned k\<close> lists the connections put back before the \<open>k\<close>-th tick.
\<close>

fun put_all :: "world \<Rightarrow> addr list \<Rightarrow> world" where
  "put_all w [] = w"
| "put_all w (a # as) = put_all (snd (put w a)) as"

text \<open>
  The waiting loop: a \<open>select\<close> on the timer and on a ticker of one second, both started
  at \<open>t0\<close>. The timer ends the loop; a tick ends it when \<open>opened\<close> is empty and goes
  round again otherwise. When both channels are ready at the same instant the \<open>select\<close>
  may take either: \<open>timer_first\<close> decides. The result is the time at which the loop is
  left, and the world then.
\<close>

function wait_loop ::
  "int \<Rightarrow> int \<Rightarrow> bool \<Rightarrow> (nat \<Rightarrow> addr list) \<Rightarrow> nat \<Rightarrow> world \<Rightarrow> int \<times> world" where
  "wait_loop fire t0 timer_first returned k w =
     (let tick = t0 + int (Suc k) * second;
          w' = put_all w (returned (Suc k))
      in if fire < tick \<or> (fire = tick \<and> timer_first) then (fire, w')
         else if opened (fst w') \<noteq> [] then wait_loop fire t0 timer_first returned (Suc k) w'
         else (tick, w'))"
  by pat_completeness auto
termination
  by (relation "measure (\<lambda>(fire, t0, tf, returned, k, w). nat (fire - (t0 + int k * second)))")
     (auto simp: second_def)

declare wait_loop.simps [simp del]

text \<open>
  \<open>disconnect\<close>. \<open>deadline\<close> is \<open>ctx.Deadline()\<close>, \<open>now\<close> the value of \<open>time.Now()\<close> when the
  timer is made. The timer is made with \<open>time.Now().Sub(dl)\<close>, as the source has it. The
  result also gives the time at which the remaining connections are closed by force.
\<close>

definition disconnect ::
  "int option \<Rightarrow> int \<Rightarrow> bool \<Rightarrow> (nat \<Rightarrow> addr list) \<Rightarrow> world \<Rightarrow> error option \<times> int \<times> world" where
  "disconnect deadline now timer_first returned w =
     (case w of (p, h) \<Rightarrow>
        if connected p \<noteq> Connected then (Some ErrPoolDisconnected, now, w)
        else
          let w1 = clear_idle (p\<lparr> connected := Disconnecting \<rparr>, h);
              (t, w2) = (case deadline of
                           None \<Rightarrow> (now, w1)
                         | Some dl \<Rightarrow>
                             wait_loop (timer_fires_at now (time_Sub now dl)) now timer_first
                               returned 0 w1);
              (p3, h3) = close_all w2 (map snd (opened (fst w2)))
          in (None, t, (p3\<lparr> connected := Disconnected \<rparr>, h3)))"


section \<open>Legacy dispatch (package driverlegacy)\<close>

text \<open>
  The packages \<open>session\<close>, \<open>readpref\<close>, \<open>writeconcern\<close>, \<open>description\<close> and \<open>command\<close>
  are used by the dispatch functions but are not part of the sources at hand. Their
  values are kept to the fields and answers that the dispatch functions consult.
\<close>

type_synonym selector = nat

text \<open>A cluster time is a BSON timestamp: seconds \<open>T\<close> and increment \<open>I\<close>, both \<open>uint32\<close>.\<close>

type_synonym Timestamp = "32 word \<times> 32 word"

datatype mode =
  PrimaryMode | PrimaryPreferredMode | SecondaryMode | SecondaryPreferredMode | NearestMode

record readpref =
  Mode :: mode
  TagSets :: "(string \<times> string) list list"
  MaxStaleness :: "int option"

text \<open>
  Modelled from the spec: the session type is missing; a session carries its transaction
  phase (none, starting, in progress), a pinned server, the read preference of its
  transaction and its last-known cluster time.
\<close>

datatype txn_state = NoTransaction | Starting | InProgress

datatype session_type = Explicit | Implicit

record Client =
  SessionType :: session_type
  state :: txn_state
  PinnedServer :: "selector option"
  CurrentRp :: "readpref option"
  ClusterTime :: "Timestamp option"

definition TransactionStarting :: "Client \<Rightarrow> bool" where
  "TransactionStarting c = (state c = Starting)"

definition TransactionInProgress :: "Client \<Rightarrow> bool" where
  "TransactionInProgress c = (state c = InProgress)"

definition TransactionRunning :: "Client \<Rightarrow> bool" where
  "TransactionRunning c = (state c = Starting \<or> state c = InProgress)"

text \<open>What \<open>session.NewClientSession(pool, clientID, session.Implicit)\<close> returns.\<close>

definition implicit_session :: Client where
  "implicit_session =
     \<lparr> SessionType = Implicit, state = NoTransaction, PinnedServer = None, CurrentRp = None,
       ClusterTime = None \<rparr>"

text \<open>
  Modelled from the spec: \<open>writeconcern.AckWrite\<close> is missing; a write concern is either
  acknowledged or not (\<open>w:0\<close>), and a command without a write concern is acknowledged.
\<close>

datatype writeconcern = WC (Acknowledged: bool)

definition AckWrite :: "writeconcern option \<Rightarrow> bool" where
  "AckWrite wc = (case wc of None \<Rightarrow> True | Some c \<Rightarrow> Acknowledged c)"

record VersionRange =
  vr_Min :: int
  vr_Max :: int

text \<open>
  \<open>description.SessionsSupported\<close> is missing; the least maximal wire version that
  qualifies is taken as the parameter \<open>minv\<close>.
\<close>

definition SessionsSupported :: "int \<Rightarrow> VersionRange option \<Rightarrow> bool" where
  "SessionsSupported minv wv = (case wv of None \<Rightarrow> False | Some r \<Rightarrow> minv \<le> vr_Max r)"

datatype optval = Int64 int | Boolean bool | Document nat | Hint nat

text \<open>
  The fields of the command structs (\<open>command.Read\<close>, \<open>command.Write\<close>,
  \<open>command.CountDocuments\<close>, ...) that the dispatch functions read or assign.
\<close>

record command =
  Session :: "Client option"
  ReadPref :: "readpref option"
  WriteConcern :: "writeconcern option"
  Opts :: "(string \<times> optval) list"

text \<open>
  The calls a dispatch function makes on its collaborators, in order. The creation of a
  session is recorded with its error (\<open>None\<close> when the session was made), a round trip
  with the command it is run on.
\<close>

datatype event =
    SelectServerLegacy selector
  | ConnectionLegacy
  | NewClientSession "error option"
  | RoundTrip command
  | EndSession
  | ConnClose
  | GoRoutine
  | Recover

text \<open>
  The answers of the collaborators: server selection, connection checkout, whether the
  topology supports sessions, session creation, the selected server's wire version, the
  conversions of the count options, and the round trip.
\<close>

record 'r dispatch_env =
  select_result :: "error option"
  connection_result :: "error option"
  SupportsSessions :: bool
  session_result :: "error option"
  WireVersion :: "VersionRange option"
  ReadDoc_result :: "error option"
  interfaceToElement_result :: "error option"
  roundtrip_result :: "error + 'r"

text \<open>\<open>checkTransactionReadPref\<close> (read.go)\<close>

definition checkTransactionReadPref :: "readpref option \<Rightarrow> error option" where
  "checkTransactionReadPref pref =
     (case pref of
        None \<Rightarrow> None
      | Some rp \<Rightarrow>
         if Mode rp = SecondaryMode \<or> Mode rp = SecondaryPreferredMode \<or>
            Mode rp = NearestMode \<or> Mode rp = PrimaryPreferredMode
         then Some ErrNonPrimaryRP else None)"


text \<open>
  \<open>if cmd.Session != nil && cmd.Session.PinnedServer != nil { selector = ... }\<close>
\<close>

definition pinned :: "command \<Rightarrow> selector \<Rightarrow> selector" where
  "pinned cmd sel =
     (case Session cmd of
        None \<Rightarrow> sel
      | Some s \<Rightarrow> (case PinnedServer s of None \<Rightarrow> sel | Some ps \<Rightarrow> ps))"

text \<open>
  The block shared by all dispatch functions: without an explicit session and on a
  topology that supports sessions, an implicit session is made and its \<open>EndSession\<close> is
  deferred. The result is the error of the creation, or the command to go on with and
  the deferred calls in the order in which they run at return (the session's end before
  the \<open>conn.Close()\<close> deferred earlier).
\<close>

definition implicit_block ::
  "'r dispatch_env \<Rightarrow> command \<Rightarrow> event list \<Rightarrow> (error \<times> event list) + (command \<times> event list \<times> event list)" where
  "implicit_block env cmd tr =
     (if Session cmd = None \<and> SupportsSessions env then
        (case session_result env of
           Some e \<Rightarrow> Inl (e, tr @ [NewClientSession (Some e), ConnClose])
         | None \<Rightarrow>
            Inr (cmd\<lparr> Session := Some implicit_session \<rparr>, tr @ [NewClientSession None],
                 [EndSession, ConnClose]))
      else Inr (cmd, tr, [ConnClose]))"

text \<open>\<open>return cmd.RoundTrip(ctx, desc, conn)\<close>, then the deferred calls.\<close>

definition do_roundtrip ::
  "'r dispatch_env \<Rightarrow> command \<Rightarrow> event list \<Rightarrow> event list \<Rightarrow> (error + 'r) \<times> event list" where
  "do_roundtrip env cmd tr deferred = (roundtrip_result env, tr @ [RoundTrip cmd] @ deferred)"

text \<open>\<open>Read\<close> (read.go)\<close>

definition Read :: "'r dispatch_env \<Rightarrow> command \<Rightarrow> selector \<Rightarrow> (error + 'r) \<times> event list" where
  "Read env cmd sel =
     (let tr1 = [SelectServerLegacy (pinned cmd sel)] in
      case select_result env of
        Some e \<Rightarrow> (Inl e, tr1)
      | None \<Rightarrow>
         let tr2 = tr1 @ [ConnectionLegacy] in
         (case connection_result env of
            Some e \<Rightarrow> (Inl e, tr2)
          | None \<Rightarrow>
             (case (case Session cmd of
                      None \<Rightarrow> None
                    | Some s \<Rightarrow> if TransactionRunning s
                                then checkTransactionReadPref (ReadPref cmd) else None) of
                Some e \<Rightarrow> (Inl e, tr2 @ [ConnClose])
              | None \<Rightarrow>
                 (case implicit_block env cmd tr2 of
                    Inl (e, tr) \<Rightarrow> (Inl e, tr)
                  | Inr (cmd', tr3, deferred) \<Rightarrow> do_roundtrip env cmd' tr3 deferred))))"

text \<open>
  The goroutine that \<open>Write\<close> starts for an unacknowledged write: the round trip, then
  the deferred \<open>conn.Close()\<close>, whether the round trip returns or panics, then the
  deferred \<open>recover()\<close>, recorded as \<open>Recover\<close> when it stops a panic.
\<close>

datatype outcome = Returns | Panics

definition detached_write :: "command \<Rightarrow> outcome \<Rightarrow> event list" where
  "detached_write cmd out =
     (case out of
        Returns \<Rightarrow> [RoundTrip cmd, ConnClose]
      | Panics \<Rightarrow> [RoundTrip cmd, ConnClose, Recover])"

text \<open>
  \<open>Write\<close> (write.go). The third component is the goroutine it has started, if any.
\<close>

definition Write ::
  "'r dispatch_env \<Rightarrow> command \<Rightarrow> selector \<Rightarrow>
     (error + 'r) \<times> event list \<times> (outcome \<Rightarrow> event list) option" where
  "Write env cmd sel =
     (let tr1 = [SelectServerLegacy (pinned cmd sel)] in
      case select_result env of
        Some e \<Rightarrow> (Inl e, tr1, None)
      | None \<Rightarrow>
         let tr2 = tr1 @ [ConnectionLegacy] in
         (case connection_result env of
            Some e \<Rightarrow> (Inl e, tr2, None)
          | None \<Rightarrow>
             if \<not> AckWrite (WriteConcern cmd)
             then (Inl ErrUnacknowledgedWrite, tr2 @ [GoRoutine], Some (detached_write cmd))
             else
               (case implicit_block env cmd tr2 of
                  Inl (e, tr) \<Rightarrow> (Inl e, tr, None)
                | Inr (cmd', tr3, deferred) \<Rightarrow>
                   (case do_roundtrip env cmd' tr3 deferred of (r, tr) \<Rightarrow> (r, tr, None)))))"

text \<open>
  \<open>retrySupported\<close> (write.go). \<open>sess\<close> is dereferenced by the source, so it is a
  session here, not an optional one.
\<close>

definition retrySupported ::
  "int \<Rightarrow> bool \<Rightarrow> VersionRange option \<Rightarrow> Client \<Rightarrow> writeconcern option \<Rightarrow> bool" where
  "retrySupported minv topoSupportsSessions descWireVersion sess wc =
     (topoSupportsSessions \<and> SessionsSupported minv descWireVersion \<and>
      \<not> (TransactionInProgress sess \<or> TransactionStarting sess) \<and> AckWrite wc)"











section \<open>The operation engine (package driver)\<close>

text \<open>
  \<open>operation.go\<close> is not part of the sources at hand: only its test is
  (\<open>operation_test.go\<close>). The test doubles are taken from the test; the methods of
  \<open>Operation\<close> are modelled from the spec.
\<close>

datatype RetryType = RetryNone | RetryWrite | RetryRead

datatype ServerKind = RSPrimary | RSSecondary | Mongos

datatype TopologyKind = Single | ReplicaSet | Sharded

text \<open>\<open>mockDeployment\<close>: the answers of \<open>SupportsRetry()\<close> and \<open>Kind()\<close>.\<close>

record Deployment =
  SupportsRetry :: bool
  Kind :: TopologyKind

record Server =
  srv_WireVersion :: "VersionRange option"
  srv_Kind :: ServerKind

record Operation =
  op_Deployment :: Deployment
  op_Client :: "Client option"
  op_WriteConcern :: "writeconcern option"
  op_ReadPreference :: "readpref option"
  op_RetryType :: RetryType

text \<open>
  Modelled from the spec: \<open>Operation.retryable\<close> is missing. A configured type of none
  never retries; otherwise the configured type is the classification if the deployment
  advertises retry support, the server's wire version meets the minimum, no transaction
  is starting or in progress on the session, and the write concern is acknowledged; it is
  none in every other case.
\<close>

definition txn_active :: "Client option \<Rightarrow> bool" where
  "txn_active c =
     (case c of None \<Rightarrow> False | Some s \<Rightarrow> TransactionInProgress s \<or> TransactionStarting s)"

definition retryable :: "int \<Rightarrow> Operation \<Rightarrow> Server \<Rightarrow> RetryType" where
  "retryable minv op desc =
     (case op_RetryType op of
        RetryNone \<Rightarrow> RetryNone
      | rt \<Rightarrow>
         if SupportsRetry (op_Deployment op) \<and>
            SessionsSupported minv (srv_WireVersion desc) \<and>
            \<not> txn_active (op_Client op) \<and>
            AckWrite (op_WriteConcern op)
         then rt else RetryNone)"

text \<open>
  The connection as the engine sees it: writing a wire message reports an error or not,
  reading (into a destination buffer) gives the bytes and an error or not. Errors are
  their messages.
\<close>

record Connection =
  WriteWireMessage :: "8 word list \<Rightarrow> string option"
  ReadWireMessage :: "8 word list \<Rightarrow> 8 word list \<times> string option"

text \<open>\<open>mockConnection\<close> of the test: the values its methods return.\<close>

record mockConnection =
  rWriteErr :: "string option"
  rReadWM :: "8 word list"
  rReadErr :: "string option"

definition mock :: "mockConnection \<Rightarrow> Connection" where
  "mock m = \<lparr> WriteWireMessage = (\<lambda>wm. rWriteErr m),
              ReadWireMessage = (\<lambda>dst. (rReadWM m, rReadErr m)) \<rparr>"

record driver_Error =
  Message :: string
  Labels :: "string list"

definition TransientTransactionError :: string where
  "TransientTransactionError = ''TransientTransactionError''"

definition NetworkError :: string where
  "NetworkError = ''NetworkError''"

text \<open>
  Modelled from the spec: \<open>Operation.roundTrip\<close> is missing. It writes the wire message
  and reads one response on the same connection; a failure of either is wrapped into an
  error with the labels TransientTransactionError and NetworkError, and no bytes.
\<close>

definition roundTrip :: "Connection \<Rightarrow> 8 word list \<Rightarrow> 8 word list \<times> driver_Error option" where
  "roundTrip conn wm =
     (case WriteWireMessage conn wm of
        Some e \<Rightarrow>
          ([], Some \<lparr> Message = e, Labels = [TransientTransactionError, NetworkError] \<rparr>)
      | None \<Rightarrow>
         (case ReadWireMessage conn [] of
            (res, Some e) \<Rightarrow>
              ([], Some \<lparr> Message = e, Labels = [TransientTransactionError, NetworkError] \<rparr>)
          | (res, None) \<Rightarrow> (res, None)))"







text \<open>The read-preference document, as far as its fields go.\<close>

record rp_doc =
  doc_mode :: string
  doc_tags :: "(string \<times> string) list list"
  doc_maxStalenessSeconds :: "int option"

definition mode_doc :: "string \<Rightarrow> rp_doc" where
  "mode_doc m = \<lparr> doc_mode = m, doc_tags = [], doc_maxStalenessSeconds = None \<rparr>"

definition full_doc :: "string \<Rightarrow> readpref \<Rightarrow> rp_doc" where
  "full_doc m rp =
     \<lparr> doc_mode = m, doc_tags = TagSets rp,
       doc_maxStalenessSeconds = map_option (\<lambda>d. d div second) (MaxStaleness rp) \<rparr>"

text \<open>
  Modelled from the spec: \<open>Operation.createReadPref\<close> is missing. Its cases are those of
  the spec's table of document shapes and of the rows of \<open>TestOperation/createReadPref\<close>:
  without a preference, a single-topology server that is not a mongos gets
  primaryPreferred and any other server no document; a primary preference gives no
  document on a mongos, primaryPreferred on a single topology and primary otherwise;
  secondaryPreferred without tags and maximal staleness gives no document on a mongos
  under the legacy query opcode; every other preference gives its mode, tags and
  staleness.
\<close>

definition createReadPref ::
  "Operation \<Rightarrow> ServerKind \<Rightarrow> TopologyKind \<Rightarrow> bool \<Rightarrow> rp_doc option" where
  "createReadPref op serverKind topologyKind isOpQuery =
     (case op_ReadPreference op of
        None \<Rightarrow>
          if topologyKind = Single \<and> serverKind \<noteq> Mongos
          then Some (mode_doc ''primaryPreferred'') else None
      | Some rp \<Rightarrow>
         (case Mode rp of
            PrimaryMode \<Rightarrow>
              if serverKind = Mongos then None
              else if topologyKind = Single then Some (mode_doc ''primaryPreferred'')
              else Some (full_doc ''primary'' rp)
          | PrimaryPreferredMode \<Rightarrow> Some (full_doc ''primaryPreferred'' rp)
          | SecondaryPreferredMode \<Rightarrow>
              if serverKind = Mongos \<and> isOpQuery \<and> MaxStaleness rp = None \<and> TagSets rp = []
              then None else Some (full_doc ''secondaryPreferred'' rp)
          | SecondaryMode \<Rightarrow> Some (full_doc ''secondary'' rp)
          | NearestMode \<Rightarrow> Some (full_doc ''nearest'' rp)))"

section \<open>Predicates and values used in the properties\<close>

subsection \<open>Pool\<close>

text \<open>
  Every idle connection is in the store, belongs to the pool and bears a generation that
  is not beyond the pool's own, as every connection stamped by \<open>get\<close> does.
\<close>

definition idle_ok :: "world \<Rightarrow> bool" where
  "idle_ok w =
     (case w of (p, h) \<Rightarrow>
        list_all (\<lambda>a. case h a of
                         None \<Rightarrow> False
                       | Some c \<Rightarrow> c_pool c = Some (self p) \<and> c_generation c \<le> generation p)
          (conns p))"

text \<open>
  The invariant behind it, over the whole store: no connection of the pool bears a
  generation beyond the pool's, and every idle connection is a connection of the pool.
\<close>

definition pool_ok :: "world \<Rightarrow> bool" where
  "pool_ok w =
     (case w of (p, h) \<Rightarrow>
        (\<forall>a c. h a = Some c \<longrightarrow> c_pool c = Some (self p) \<longrightarrow> c_generation c \<le> generation p) \<and>
        (\<forall>a\<in>set (conns p). \<exists>c. h a = Some c \<and> c_pool c = Some (self p)))"

text \<open>
  A connected pool of capacity one at address 0, the connection that a first \<open>get\<close>
  creates at address 1, and the pool after that \<open>get\<close>.
\<close>

definition pool0 :: pool where
  "pool0 = snd (connect (newPool 0 1))"

definition env_ok :: get_env where
  "env_ok = \<lparr> ctx_err = None, prefer_ctx = False, dial_err = None, new_addr = 1,
     new_close_fails = False, connected_after = Connected \<rparr>"

definition env_race :: get_env where
  "env_race = env_ok\<lparr> connected_after := Disconnecting \<rparr>"

definition conn1 :: connection where
  "conn1 = \<lparr> c_pool = Some 0, poolID = 1, c_generation = 1, nc = True, close_fails = False \<rparr>"

definition pool1 :: pool where
  "pool1 = pool0\<lparr> nextid := 1, opened := [(1, 1)], dialed := 1 \<rparr>"

subsection \<open>Dispatch\<close>





fun no_roundtrip :: "event list \<Rightarrow> bool" where
  "no_roundtrip [] = True"
| "no_roundtrip (RoundTrip c # tr) = False"
| "no_roundtrip (e # tr) = no_roundtrip tr"

text \<open>
  A topology on which every collaborator succeeds, one on which server selection fails,
  a command without session, one inside a transaction with a secondary read preference,
  and one with an unacknowledged write concern.
\<close>

definition env_up :: "nat dispatch_env" where
  "env_up = \<lparr> select_result = None, connection_result = None, SupportsSessions = True,
     session_result = None, WireVersion = Some \<lparr> vr_Min = 0, vr_Max = 7 \<rparr>,
     ReadDoc_result = None, interfaceToElement_result = None, roundtrip_result = Inr 42 \<rparr>"

definition env_down :: "nat dispatch_env" where
  "env_down = env_up\<lparr> select_result := Some (External 1) \<rparr>"

definition cmd0 :: command where
  "cmd0 = \<lparr> Session = None, ReadPref = None, WriteConcern = None, Opts = [] \<rparr>"

definition txn_session :: Client where
  "txn_session = \<lparr> SessionType = Explicit, state = InProgress, PinnedServer = None,
     CurrentRp = None, ClusterTime = None \<rparr>"

definition secondary :: readpref where
  "secondary = \<lparr> Mode = SecondaryMode, TagSets = [], MaxStaleness = None \<rparr>"

definition cmd_txn :: command where
  "cmd_txn = cmd0\<lparr> Session := Some txn_session, ReadPref := Some secondary \<rparr>"

definition cmd_unack :: command where
  "cmd_unack = cmd0\<lparr> WriteConcern := Some (WC False) \<rparr>"

subsection \<open>Operation engine\<close>


text \<open>The values of \<open>operation_test.go\<close>.\<close>

definition sess :: Client where
  "sess = \<lparr> SessionType = Explicit, state = NoTransaction, PinnedServer = None,
            CurrentRp = None, ClusterTime = None \<rparr>"

definition descRetryable :: Server where
  "descRetryable = \<lparr> srv_WireVersion = Some \<lparr> vr_Min = 0, vr_Max = 7 \<rparr>, srv_Kind = RSPrimary \<rparr>"

definition descNotRetryable :: Server where
  "descNotRetryable = \<lparr> srv_WireVersion = Some \<lparr> vr_Min = 0, vr_Max = 5 \<rparr>, srv_Kind = RSPrimary \<rparr>"

definition test_op :: "bool \<Rightarrow> Client \<Rightarrow> bool \<Rightarrow> RetryType \<Rightarrow> Operation" where
  "test_op retry s ack rt =
     \<lparr> op_Deployment = \<lparr> SupportsRetry = retry, Kind = Single \<rparr>, op_Client = Some s,
       op_WriteConcern = Some (WC ack), op_ReadPreference = None, op_RetryType = rt \<rparr>"

definition rp_op :: "readpref option \<Rightarrow> Operation" where
  "rp_op rp =
     \<lparr> op_Deployment = \<lparr> SupportsRetry = False, Kind = Single \<rparr>, op_Client = None,
       op_WriteConcern = None, op_ReadPreference = rp, op_RetryType = RetryNone \<rparr>"

definition pref :: "mode \<Rightarrow> readpref" where
  "pref m = \<lparr> Mode = m, TagSets = [], MaxStaleness = None \<rparr>"

section \<open>Properties of the pool\<close>

subsection \<open>Facts about \<open>close\<close> and the generation\<close>

lemma word64_less_succ: "(g :: 64 word) \<noteq> - 1 \<Longrightarrow> g < g + 1"
  by (metis inc_less_eq_triv_imp linorder_less_linear word_le_less_eq)

lemma word64_le_succ: "(g :: 64 word) \<noteq> - 1 \<Longrightarrow> g \<le> g + 1"
  by (meson inc_less_eq_triv_imp nle_le)

lemma close_fields:
  "close (p, h) a = (r, (p', h')) \<Longrightarrow>
     self p' = self p \<and> nextid p' = nextid p \<and> conns p' = conns p \<and> cap p' = cap p \<and>
     generation p' = generation p \<and> connected p' = connected p \<and> dialed p' = dialed p"
  by (auto simp: close_def Let_def split: option.splits if_splits)

lemma close_store:
  "close (p, h) a = (r, (p', h')) \<Longrightarrow> h b = Some c \<Longrightarrow>
     \<exists>c'. h' b = Some c' \<and> c_pool c' = c_pool c \<and> poolID c' = poolID c \<and>
          c_generation c' = c_generation c \<and> (nc c' \<longrightarrow> nc c)"
  by (auto simp: close_def Let_def split: option.splits if_splits)

lemma close_closes:
  "h a = Some c \<Longrightarrow> c_pool c = Some (self p) \<Longrightarrow> close (p, h) a = (r, (p', h')) \<Longrightarrow>
     (\<exists>c'. h' a = Some c' \<and> \<not> nc c' \<and> poolID c' = poolID c) \<and>
     map_of (opened p') (poolID c) = None"
  by (auto simp: close_def Let_def delete_conv split: option.splits if_splits)

lemma close_gen: "generation (fst (snd (close (p, h) a))) = generation p"
  by (auto simp: close_def Let_def split: option.splits)

lemma close_gen': "generation (fst (snd (close w a))) = generation (fst w)"
  by (cases w) (simp add: close_gen)

lemma put_gen': "generation (fst (snd (put w a))) = generation (fst w)"
  by (cases w) (auto simp: put_def close_gen split: option.splits)

lemma close_all_gen: "generation (fst (close_all w as)) = generation (fst w)"
  by (induction as arbitrary: w) (simp_all add: close_gen')

lemma put_all_gen: "generation (fst (put_all w as)) = generation (fst w)"
  by (induction as arbitrary: w) (simp_all add: put_gen')

lemma wait_loop_gen:
  "generation (fst (snd (wait_loop fire t0 tf returned k w))) = generation (fst w)"
proof (induction fire t0 tf returned k w rule: wait_loop.induct)
  case (1 fire t0 tf returned k w)
  show ?case
    using 1 [OF refl refl]
    by (subst wait_loop.simps) (auto simp: Let_def put_all_gen)
qed

lemma get_new_gen: "generation (fst (snd (get_new env (p, h)))) = generation p"
  by (auto simp: get_new_def Let_def close_gen split: option.splits)

lemma get_from_gen: "generation (fst (snd (get_from env as (p, h)))) = generation p"
proof (induction as arbitrary: p h)
  case Nil
  show ?case by (auto simp: get_new_gen split: option.splits)
next
  case (Cons a as)
  show ?case
  proof (cases "h a")
    case None
    then show ?thesis by (simp add: Let_def)
  next
    case (Some c)
    obtain r1 p1 h1 where cl: "close (p\<lparr>conns := as\<rparr>, h) a = (r1, (p1, h1))"
      by (metis prod.exhaust)
    from close_gen [of "p\<lparr>conns := as\<rparr>" h a] cl have "generation p1 = generation p" by simp
    with Some cl Cons [of p1 h1] show ?thesis by (simp add: Let_def)
  qed
qed

lemma disconnect_gen:
  "generation (fst (snd (snd (disconnect dl now tf returned (p, h))))) = generation p"
proof (cases "connected p = Connected")
  case False
  then show ?thesis by (simp add: disconnect_def)
next
  case True
  define w1 where "w1 = clear_idle (p\<lparr>connected := Disconnecting\<rparr>, h)"
  have g1: "generation (fst w1) = generation p"
    by (simp add: w1_def clear_idle_def close_all_gen)
  show ?thesis
  proof (cases dl)
    case None
    with True g1 show ?thesis
      by (simp add: disconnect_def Let_def w1_def [symmetric] close_all_gen split: prod.splits)
        (metis close_all_gen fst_conv)
  next
    case (Some d)
    with True g1 show ?thesis
      by (simp add: disconnect_def Let_def w1_def [symmetric] split: prod.splits)
        (metis close_all_gen fst_conv wait_loop_gen snd_conv)
  qed
qed

subsection \<open>get\<close>

lemma get_pool0: "get env_ok (pool0, Map.empty) = (Inr 1, (pool1, [1 \<mapsto> conn1]))"
  by (simp add: get_def pool0_def pool1_def connect_def newPool_def env_ok_def get_new_def conn1_def)

lemma get_race:
  "get env_race (pool0, Map.empty) =
     (Inl ErrPoolDisconnected,
      (pool0\<lparr> nextid := 1, connected := Disconnecting, dialed := 1 \<rparr>,
       [1 \<mapsto> conn1\<lparr> nc := False \<rparr>]))"
  by (simp add: get_def pool0_def connect_def newPool_def env_ok_def env_race_def get_new_def
      close_def conn1_def)

lemma get_not_connected:
  "connected p \<noteq> Connected \<Longrightarrow> get env (p, h) = (Inl ErrPoolDisconnected, (p, h))"
  by (cases "conns p") (simp_all add: get_def)

lemma get_new_dialed:
  "get_new env (p, h) = (r, (p', h')) \<Longrightarrow> dialed p' = Suc (dialed p)"
  by (auto simp: get_new_def Let_def close_def split: option.splits if_splits)

lemma get_new_disconnected:
  assumes "get_new env (p, h) = (r, (p', h'))" "dial_err env = None" "connected_after env \<noteq> Connected"
  shows "r = Inl ErrPoolDisconnected \<and> (\<exists>c. h' (new_addr env) = Some c \<and> \<not> nc c) \<and>
         map_of (opened p') (nextid p') = None \<and> nextid p' = nextid p + 1"
  using assms
  by (auto simp: get_new_def Let_def close_def delete_conv split: option.splits if_splits)

lemma get_from_created:
  "get_from env as (p, h) = (r, (p', h')) \<Longrightarrow> dial_err env = None \<Longrightarrow>
   connected_after env \<noteq> Connected \<Longrightarrow> dialed p' \<noteq> dialed p \<Longrightarrow>
     r = Inl ErrPoolDisconnected \<and> (\<exists>c. h' (new_addr env) = Some c \<and> \<not> nc c) \<and>
     map_of (opened p') (nextid p') = None \<and> nextid p' = nextid p + 1"
proof (induction as arbitrary: p h)
  case Nil
  then show ?case
    by (auto split: if_splits option.splits dest: get_new_disconnected)
next
  case (Cons a as)
  show ?case
  proof (cases "connected p \<noteq> Connected \<or> (ctx_err env \<noteq> None \<and> prefer_ctx env)")
    case True
    with Cons.prems show ?thesis by (auto split: if_splits)
  next
    case False
    show ?thesis
    proof (cases "h a")
      case None
      with False Cons.prems show ?thesis by (auto simp: Let_def)
    next
      case (Some c)
      show ?thesis
      proof (cases "c_expired (p\<lparr>conns := as\<rparr>) c")
        case ex: False
        with False Some Cons.prems show ?thesis by (auto simp: Let_def)
      next
        case ex: True
        obtain r1 p1 h1 where cl: "close (p\<lparr>conns := as\<rparr>, h) a = (r1, (p1, h1))"
          by (metis prod.exhaust)
        from close_fields [OF cl] have f: "dialed p1 = dialed p" "nextid p1 = nextid p" by simp_all
        from False Some ex cl Cons.prems(1)
        have "get_from env as (p1, h1) = (r, (p', h'))" by (auto simp: Let_def)
        moreover have "dialed p' \<noteq> dialed p1" using Cons.prems(4) f by simp
        ultimately have "r = Inl ErrPoolDisconnected \<and> (\<exists>c. h' (new_addr env) = Some c \<and> \<not> nc c) \<and>
          map_of (opened p') (nextid p') = None \<and> nextid p' = nextid p1 + 1"
          using Cons.prems(2,3) Cons.IH [of p1 h1] by blast
        then show ?thesis unfolding f .
      qed
    qed
  qed
qed

text \<open>
  C6. On a pool that is not connected, \<open>get\<close> fails with the disconnected-pool error and
  leaves the world as it is: nothing is dialled. When \<open>get\<close> has created a connection
  (the dial count has moved and the dial succeeded) and the pool is found to have left
  the connected state meanwhile, \<open>get\<close> fails with the disconnected-pool error, the
  transport of the new connection is closed, and the new connection's id is not in
  \<open>opened\<close>.
\<close>

theorem get_disconnected:
  "(connected p \<noteq> Connected \<longrightarrow> get env (p, h) = (Inl ErrPoolDisconnected, (p, h))) \<and>
   (get env (p, h) = (r, (p', h')) \<and> dial_err env = None \<and> dialed p' \<noteq> dialed p \<and>
    connected_after env \<noteq> Connected \<longrightarrow>
      r = Inl ErrPoolDisconnected \<and> (\<exists>c. h' (new_addr env) = Some c \<and> \<not> nc c) \<and>
      map_of (opened p') (nextid p') = None \<and> nextid p' = nextid p + 1)"
  using get_not_connected [of p env h] get_from_created [of env "conns p" p h r p' h']
  by (auto simp: get_def)

theorem get_disconnected_witness:
  "connected (newPool 0 1) \<noteq> Connected \<and>
   get env_ok (newPool 0 1, Map.empty) = (Inl ErrPoolDisconnected, (newPool 0 1, Map.empty)) \<and>
   dial_err env_race = None \<and> connected_after env_race \<noteq> Connected \<and>
   dialed (pool0\<lparr> nextid := 1, connected := Disconnecting, dialed := 1 \<rparr>) \<noteq> dialed pool0 \<and>
   get env_race (pool0, Map.empty) =
     (Inl ErrPoolDisconnected,
      (pool0\<lparr> nextid := 1, connected := Disconnecting, dialed := 1 \<rparr>,
       [1 \<mapsto> conn1\<lparr> nc := False \<rparr>])) \<and>
   map_of (opened (pool0\<lparr> nextid := 1, connected := Disconnecting, dialed := 1 \<rparr>)) 1 = None"
proof -
  have a: "connected (newPool 0 1) \<noteq> Connected"
    by (simp add: newPool_def)
  have b: "dial_err env_race = None" "connected_after env_race \<noteq> Connected"
    "dialed (pool0\<lparr> nextid := 1, connected := Disconnecting, dialed := 1 \<rparr>) \<noteq> dialed pool0"
    by (simp_all add: env_race_def env_ok_def pool0_def connect_def newPool_def)
  from get_disconnected [of "newPool 0 1" env_ok Map.empty] a
  have "get env_ok (newPool 0 1, Map.empty) = (Inl ErrPoolDisconnected, (newPool 0 1, Map.empty))"
    by blast
  moreover from get_disconnected [of pool0 env_race Map.empty "Inl ErrPoolDisconnected"
      "pool0\<lparr> nextid := 1, connected := Disconnecting, dialed := 1 \<rparr>"
      "[1 \<mapsto> conn1\<lparr> nc := False \<rparr>]"] get_race b
  have "map_of (opened (pool0\<lparr> nextid := 1, connected := Disconnecting, dialed := 1 \<rparr>)) 1 = None"
    by simp
  ultimately show ?thesis using a b get_race by simp
qed

subsection \<open>Generations and stale connections\<close>

lemma get_new_Inr:
  "get_new env (p, h) = (Inr a, (p', h')) \<Longrightarrow>
     \<exists>c. h' a = Some c \<and> c_pool c = Some (self p') \<and> c_generation c = generation p' \<and>
         generation p' = generation p"
  by (auto simp: get_new_def Let_def split: option.splits if_splits)

lemma get_from_Inr:
  "get_from env as (p, h) = (Inr a, (p', h')) \<Longrightarrow>
   \<forall>b\<in>set as. \<exists>c. h b = Some c \<and> c_pool c = Some (self p) \<and> c_generation c \<le> generation p \<Longrightarrow>
     \<exists>c. h' a = Some c \<and> c_pool c = Some (self p') \<and> c_generation c = generation p' \<and>
         generation p' = generation p"
proof (induction as arbitrary: p h)
  case Nil
  then show ?case
    by (auto split: if_splits option.splits dest: get_new_Inr)
next
  case (Cons x xs)
  from Cons.prems(2) obtain c where c: "h x = Some c" "c_pool c = Some (self p)"
    "c_generation c \<le> generation p" by auto
  from Cons.prems(1) have live: "connected p = Connected" "\<not> (ctx_err env \<noteq> None \<and> prefer_ctx env)"
    by (auto split: if_splits)
  show ?case
  proof (cases "c_expired (p\<lparr>conns := xs\<rparr>) c")
    case False
    with live c Cons.prems(1) have "a = x" "p' = p\<lparr>conns := xs\<rparr>" "h' = h"
      by (auto simp: Let_def)
    moreover from False c have "c_generation c = generation p"
      by (simp add: c_expired_def expired_def)
    ultimately show ?thesis using c by simp
  next
    case True
    obtain r1 p1 h1 where cl: "close (p\<lparr>conns := xs\<rparr>, h) x = (r1, (p1, h1))"
      by (metis prod.exhaust)
    from close_fields [OF cl] have f: "self p1 = self p" "generation p1 = generation p" by simp_all
    from live c True cl Cons.prems(1)
    have g: "get_from env xs (p1, h1) = (Inr a, (p', h'))" by (auto simp: Let_def)
    have "\<forall>b\<in>set xs. \<exists>c. h1 b = Some c \<and> c_pool c = Some (self p1) \<and>
            c_generation c \<le> generation p1"
    proof
      fix b assume "b \<in> set xs"
      with Cons.prems(2) obtain d where d: "h b = Some d" "c_pool d = Some (self p)"
        "c_generation d \<le> generation p" by auto
      from close_store [OF cl d(1)] d f
      show "\<exists>c. h1 b = Some c \<and> c_pool c = Some (self p1) \<and> c_generation c \<le> generation p1"
        by auto
    qed
    from Cons.IH [OF g this] f show ?thesis by simp
  qed
qed

lemma stale_put_closes:
  assumes ok: "idle_ok (p, h)" and nowrap: "generation p \<noteq> - 1"
    and g: "get env (p, h) = (Inr a, (p1, h1))"
    and pt: "put (drain p1, h1) a = (r, (p2, h2))"
  shows "conns p2 = conns p1 \<and>
         (\<exists>c. h2 a = Some c \<and> \<not> nc c \<and> map_of (opened p2) (poolID c) = None)"
proof -
  from ok have "\<forall>b\<in>set (conns p). \<exists>c. h b = Some c \<and> c_pool c = Some (self p) \<and>
      c_generation c \<le> generation p"
    by (auto simp: idle_ok_def list_all_iff split: option.splits)
  with g obtain c where c: "h1 a = Some c" "c_pool c = Some (self p1)"
    "c_generation c = generation p1" "generation p1 = generation p"
    unfolding get_def by (auto dest!: get_from_Inr)
  from c nowrap have ex: "c_expired (drain p1) c"
    by (simp add: c_expired_def expired_def drain_def word64_less_succ)
  with c pt have cl: "close (drain p1, h1) a = (r, (p2, h2))"
    by (simp add: put_def drain_def)
  from close_fields [OF cl] have "conns p2 = conns p1" by (simp add: drain_def)
  moreover from close_closes [OF c(1) _ cl] c(2)
  have "\<exists>c. h2 a = Some c \<and> \<not> nc c \<and> map_of (opened p2) (poolID c) = None"
    by (auto simp: drain_def)
  ultimately show ?thesis by simp
qed

text \<open>
  The invariant holds of a new pool and is kept by \<open>close\<close>, \<open>put\<close> and \<open>get\<close>, and by
  \<open>drain\<close> and \<open>connect\<close> as long as the generation counter does not wrap.
\<close>

lemma pool_ok_idle_ok: "pool_ok w \<Longrightarrow> idle_ok w"
  by (cases w) (auto simp: pool_ok_def idle_ok_def list_all_iff split: option.splits)

lemma pool_ok_newPool: "pool_ok (newPool r n, Map.empty)"
  by (simp add: pool_ok_def newPool_def)

lemma pool_ok_drain:
  assumes "pool_ok (p, h)" "generation p \<noteq> - 1"
  shows "pool_ok (drain p, h)"
proof -
  have "c_generation c \<le> generation p + 1" if "c_generation c \<le> generation p" for c :: connection
    using that word64_le_succ [OF assms(2)] by (rule order_trans)
  with assms(1) show ?thesis by (simp add: pool_ok_def drain_def)
qed

lemma pool_ok_connect:
  assumes "pool_ok (p, h)" "generation p \<noteq> - 1"
  shows "pool_ok (snd (connect p), h)"
proof -
  have "c_generation c \<le> generation p + 1" if "c_generation c \<le> generation p" for c :: connection
    using that word64_le_succ [OF assms(2)] by (rule order_trans)
  with assms(1) show ?thesis by (simp add: pool_ok_def connect_def)
qed

lemma pool_ok_close: "pool_ok w \<Longrightarrow> pool_ok (snd (close w a))"
  by (cases w) (auto simp: pool_ok_def close_def Let_def list_all_iff split: option.splits)

lemma pool_ok_put: "pool_ok w \<Longrightarrow> pool_ok (snd (put w a))"
  using pool_ok_close [of w a]
  by (cases w) (auto simp: pool_ok_def put_def list_all_iff split: option.splits)

lemma pool_ok_get_new: "pool_ok w \<Longrightarrow> pool_ok (snd (get_new env w))"
proof (cases w)
  case (Pair p h)
  assume ok: "pool_ok w"
  show ?thesis
  proof (cases "dial_err env")
    case (Some e)
    with ok Pair show ?thesis by (auto simp: pool_ok_def get_new_def Let_def)
  next
    case None
    define p3 where "p3 = p\<lparr> dialed := dialed p + 1, nextid := nextid p + 1,
      connected := connected_after env \<rparr>"
    define c where "c = \<lparr> c_pool = Some (self p), poolID = nextid p + 1,
      c_generation = generation p, nc = True, close_fails = new_close_fails env \<rparr>"
    have ok3: "pool_ok (p3, h(new_addr env \<mapsto> c))"
      using ok Pair by (auto simp: pool_ok_def p3_def c_def list_all_iff split: option.splits)
    show ?thesis
    proof (cases "connected_after env = Connected")
      case True
      with None Pair ok3 show ?thesis
        by (auto simp: pool_ok_def get_new_def Let_def p3_def c_def list_all_iff split: option.splits)
    next
      case False
      with None Pair have "snd (get_new env w) = snd (close (p3, h(new_addr env \<mapsto> c)) (new_addr env))"
        by (simp add: get_new_def Let_def p3_def c_def)
      with pool_ok_close [OF ok3] show ?thesis by simp
    qed
  qed
qed

lemma pool_ok_get_from: "pool_ok (p, h) \<Longrightarrow> conns p = as \<Longrightarrow> pool_ok (snd (get_from env as (p, h)))"
proof (induction as arbitrary: p h)
  case Nil
  then show ?case using pool_ok_get_new [of "(p, h)" env]
    by (auto split: option.splits)
next
  case (Cons a as)
  have ok1: "pool_ok (p\<lparr>conns := as\<rparr>, h)"
    using Cons.prems by (auto simp: pool_ok_def)
  show ?case
  proof (cases "h a")
    case None
    with ok1 Cons.prems show ?thesis by (auto simp: Let_def)
  next
    case (Some c)
    obtain r1 p1 h1 where cl: "close (p\<lparr>conns := as\<rparr>, h) a = (r1, (p1, h1))"
      by (metis prod.exhaust)
    from pool_ok_close [OF ok1, of a] cl have ok2: "pool_ok (p1, h1)" by simp
    from close_fields [OF cl] have "conns p1 = as" by simp
    from Cons.IH [OF ok2 this] Some cl ok1 Cons.prems show ?thesis
      by (auto simp: Let_def)
  qed
qed

lemma pool_ok_get: "pool_ok w \<Longrightarrow> pool_ok (snd (get env w))"
  by (cases w) (simp add: get_def pool_ok_get_from)

text \<open>
  C4, for a generation counter that has not reached its last value \<open>2^64 - 1\<close>: \<open>drain\<close>
  and \<open>connect\<close> do not decrease the generation and no other operation changes it; a
  generation, and a connection, is expired exactly when it is less than the pool's
  generation; and a connection checked out with \<open>get\<close> before a \<open>drain\<close> is closed by
  the next \<open>put\<close>: its transport is closed, its id leaves \<open>opened\<close>, and the idle cache
  is as before.
\<close>

theorem generation_and_stale_put:
  assumes "generation p \<noteq> - 1"
  shows "generation p \<le> generation (drain p) \<and>
         generation p \<le> generation (snd (connect p)) \<and>
         generation (fst (snd (get env (p, h)))) = generation p \<and>
         generation (fst (snd (put (p, h) b))) = generation p \<and>
         generation (fst (snd (close (p, h) b))) = generation p \<and>
         generation (fst (snd (snd (disconnect dl now tf returned (p, h))))) = generation p \<and>
         (expired p g \<longleftrightarrow> g < generation p) \<and>
         (c_expired p c \<longleftrightarrow> c_generation c < generation p) \<and>
         (idle_ok (p, h) \<and> get env (p, h) = (Inr a, (p1, h1)) \<and>
          put (drain p1, h1) a = (r, (p2, h2)) \<longrightarrow>
            conns p2 = conns p1 \<and>
            (\<exists>c. h2 a = Some c \<and> \<not> nc c \<and> map_of (opened p2) (poolID c) = None))"
proof -
  have "generation p \<le> generation (drain p)" "generation p \<le> generation (snd (connect p))"
    using assms by (simp_all add: drain_def connect_def word64_le_succ)
  moreover have "generation (fst (snd (get env (p, h)))) = generation p"
    by (simp add: get_def get_from_gen)
  moreover have "generation (fst (snd (put (p, h) b))) = generation p"
    using put_gen' [of "(p, h)" b] by simp
  moreover have "generation (fst (snd (close (p, h) b))) = generation p"
    by (rule close_gen)
  moreover have "generation (fst (snd (snd (disconnect dl now tf returned (p, h))))) = generation p"
    by (rule disconnect_gen)
  moreover have "expired p g \<longleftrightarrow> g < generation p"
    by (simp add: expired_def)
  moreover have "c_expired p c \<longleftrightarrow> c_generation c < generation p"
    by (simp add: c_expired_def expired_def)
  moreover have "idle_ok (p, h) \<and> get env (p, h) = (Inr a, (p1, h1)) \<and>
          put (drain p1, h1) a = (r, (p2, h2)) \<longrightarrow>
            conns p2 = conns p1 \<and>
            (\<exists>c. h2 a = Some c \<and> \<not> nc c \<and> map_of (opened p2) (poolID c) = None)"
    using assms stale_put_closes [of p h env a p1 h1 r p2 h2] by blast
  ultimately show ?thesis by blast
qed

theorem generation_and_stale_put_witness:
  "generation pool0 \<noteq> - 1 \<and> generation pool0 \<le> generation (drain pool0) \<and>
   idle_ok (pool0, Map.empty) \<and>
   get env_ok (pool0, Map.empty) = (Inr 1, (pool1, [1 \<mapsto> conn1])) \<and>
   put (drain pool1, [1 \<mapsto> conn1]) 1 =
     (None, ((drain pool1)\<lparr> opened := [] \<rparr>, [1 \<mapsto> conn1\<lparr> nc := False \<rparr>])) \<and>
   conns ((drain pool1)\<lparr> opened := [] \<rparr>) = conns pool1 \<and>
   (\<exists>c. [1 \<mapsto> conn1\<lparr> nc := False \<rparr>] 1 = Some c \<and> \<not> nc c \<and>
        map_of (opened ((drain pool1)\<lparr> opened := [] \<rparr>)) (poolID c) = None)"
proof -
  have g: "generation pool0 \<noteq> - 1"
    by (simp add: pool0_def connect_def newPool_def)
  have ok: "idle_ok (pool0, Map.empty)"
    by (simp add: idle_ok_def pool0_def connect_def newPool_def)
  have pt: "put (drain pool1, [1 \<mapsto> conn1]) 1 =
     (None, ((drain pool1)\<lparr> opened := [] \<rparr>, [1 \<mapsto> conn1\<lparr> nc := False \<rparr>]))"
    by (simp add: put_def close_def drain_def pool1_def pool0_def connect_def newPool_def
        conn1_def c_expired_def expired_def)
  from generation_and_stale_put [OF g, of env_ok Map.empty 1 None 0 True "\<lambda>k. []" 0 conn1 1
      pool1 "[1 \<mapsto> conn1]" None "(drain pool1)\<lparr> opened := [] \<rparr>" "[1 \<mapsto> conn1\<lparr> nc := False \<rparr>]"]
    g ok get_pool0 pt
  show ?thesis by simp
qed

text \<open>
  At the last value the counter wraps: \<open>drain\<close> takes the generation from \<open>2^64 - 1\<close> to
  0, the connection checked out before is not expired afterwards, and \<open>put\<close> returns it
  to the idle cache with its transport open.
\<close>

theorem generation_wraps_counterexample:
  "generation (drain (pool0\<lparr> generation := - 1 \<rparr>)) < generation (pool0\<lparr> generation := - 1 \<rparr>) \<and>
   get env_ok (pool0\<lparr> generation := - 1 \<rparr>, Map.empty) =
     (Inr 1, (pool1\<lparr> generation := - 1 \<rparr>, [1 \<mapsto> conn1\<lparr> c_generation := - 1 \<rparr>])) \<and>
   put (drain (pool1\<lparr> generation := - 1 \<rparr>), [1 \<mapsto> conn1\<lparr> c_generation := - 1 \<rparr>]) 1 =
     (None, (drain (pool1\<lparr> generation := - 1 \<rparr>)\<lparr> conns := [1] \<rparr>,
             [1 \<mapsto> conn1\<lparr> c_generation := - 1 \<rparr>]))"
  by (simp add: get_def put_def drain_def pool1_def pool0_def connect_def newPool_def
      conn1_def c_expired_def expired_def env_ok_def get_new_def word_gt_0)

subsection \<open>disconnect\<close>

text \<open>
  With a deadline in the future the duration \<open>time.Now().Sub(dl)\<close> is negative, so the
  timer has fired when the loop is entered and the loop is left at once.
\<close>

lemma future_deadline_timer: "now < dl \<Longrightarrow> timer_fires_at now (time_Sub now dl) = now"
  by (simp add: timer_fires_at_def time_Sub_def max_def min_def)

lemma wait_loop_fires_at_once:
  "wait_loop now now tf returned 0 w = (now, put_all w (returned (Suc 0)))"
  by (subst wait_loop.simps) (simp add: Let_def second_def)

lemma disconnect_future_deadline:
  "connected p = Connected \<Longrightarrow> now < dl \<Longrightarrow>
     fst (snd (disconnect (Some dl) now tf returned (p, h))) = now"
  by (simp add: disconnect_def Let_def future_deadline_timer wait_loop_fires_at_once
      split: prod.splits)

lemma disconnect_ends_disconnected:
  "connected p = Connected \<Longrightarrow>
     fst (disconnect dl now tf returned (p, h)) = None \<and>
     connected (fst (snd (snd (disconnect dl now tf returned (p, h))))) = Disconnected"
  by (simp add: disconnect_def Let_def split: prod.splits)

text \<open>
  C1, at a pool with one connection checked out and never returned, the time being 0 and
  the deadline five seconds away: \<open>disconnect\<close> closes the connection by force at time
  0, before the deadline and while \<open>opened\<close> is not empty; it returns nil and leaves the
  pool disconnected.
\<close>

theorem disconnect_forces_before_deadline:
  "connected pool1 = Connected \<and> opened pool1 = [(1, 1)] \<and>
   disconnect (Some (5 * second)) 0 tf (\<lambda>k. []) (pool1, [1 \<mapsto> conn1]) =
     (None, 0, (pool1\<lparr> opened := [], connected := Disconnected \<rparr>, [1 \<mapsto> conn1\<lparr> nc := False \<rparr>]))"
  by (simp add: disconnect_def Let_def future_deadline_timer wait_loop_fires_at_once
      clear_idle_def pool1_def pool0_def connect_def newPool_def conn1_def close_def second_def)

section \<open>Properties of the dispatch functions\<close>

subsection \<open>Implicit sessions\<close>























subsection \<open>Read inside a transaction\<close>

text \<open>
  C9, for a call whose server selection and connection checkout succeed: with a session
  attached, a transaction running and a read preference of mode secondary,
  secondaryPreferred, nearest or primaryPreferred, \<open>Read\<close> returns the error of a
  non-primary read preference, after closing the connection. When selection or checkout
  fails, that error is returned. In every case there is no round trip.
\<close>

theorem Read_transaction_readpref:
  assumes "Session cmd = Some s" "TransactionRunning s" "ReadPref cmd = Some rp"
    "Mode rp = SecondaryMode \<or> Mode rp = SecondaryPreferredMode \<or> Mode rp = NearestMode \<or>
     Mode rp = PrimaryPreferredMode"
  shows "(select_result env = None \<and> connection_result env = None \<longrightarrow>
            Read env cmd sel =
              (Inl ErrNonPrimaryRP, [SelectServerLegacy (pinned cmd sel), ConnectionLegacy, ConnClose])) \<and>
         (select_result env = Some e \<longrightarrow> fst (Read env cmd sel) = Inl e) \<and>
         (select_result env = None \<and> connection_result env = Some e \<longrightarrow>
            fst (Read env cmd sel) = Inl e) \<and>
         no_roundtrip (snd (Read env cmd sel))"
  using assms
  by (auto simp: Read_def checkTransactionReadPref_def Let_def split: option.splits)

theorem Read_transaction_readpref_witness:
  "Session cmd_txn = Some txn_session \<and> TransactionRunning txn_session \<and>
   ReadPref cmd_txn = Some secondary \<and> Mode secondary = SecondaryMode \<and>
   select_result env_up = None \<and> connection_result env_up = None \<and>
   Read env_up cmd_txn 0 = (Inl ErrNonPrimaryRP, [SelectServerLegacy 0, ConnectionLegacy, ConnClose]) \<and>
   no_roundtrip (snd (Read env_up cmd_txn 0))"
proof -
  have a: "Session cmd_txn = Some txn_session" "TransactionRunning txn_session"
    "ReadPref cmd_txn = Some secondary" "Mode secondary = SecondaryMode"
    "select_result env_up = None" "connection_result env_up = None"
    "pinned cmd_txn 0 = 0"
    by (simp_all add: cmd_txn_def cmd0_def txn_session_def TransactionRunning_def secondary_def
        env_up_def pinned_def)
  from Read_transaction_readpref [of cmd_txn txn_session secondary env_up 0 "External 1"] a
  show ?thesis by simp
qed

text \<open>
  When server selection fails, the call returns the error of the selection, not the
  error of the read preference.
\<close>

theorem Read_transaction_readpref_counterexample:
  "Session cmd_txn = Some txn_session \<and> TransactionRunning txn_session \<and>
   ReadPref cmd_txn = Some secondary \<and> Mode secondary = SecondaryMode \<and>
   fst (Read env_down cmd_txn 0) = Inl (External 1) \<and>
   fst (Read env_down cmd_txn 0) \<noteq> Inl ErrNonPrimaryRP"
  by (simp add: Read_def env_down_def env_up_def cmd_txn_def cmd0_def txn_session_def
      TransactionRunning_def secondary_def)

subsection \<open>Unacknowledged writes\<close>

text \<open>
  C7, for a call whose server selection and connection checkout succeed: with an
  unacknowledged write concern, \<open>Write\<close> returns the unacknowledged-write error after
  starting the goroutine; its own trace has no round trip and does not close the
  connection, and its result does not depend on the answer of the round trip. The
  goroutine runs the round trip and then closes the connection, whether the round trip
  returns or panics. When selection or checkout fails, that error is returned and no
  goroutine is started.
\<close>

theorem Write_unacknowledged:
  assumes "\<not> AckWrite (WriteConcern cmd)"
  shows "(select_result env = None \<and> connection_result env = None \<longrightarrow>
            Write env cmd sel =
              (Inl ErrUnacknowledgedWrite,
               [SelectServerLegacy (pinned cmd sel), ConnectionLegacy, GoRoutine],
               Some (detached_write cmd))) \<and>
         (select_result env = Some e \<longrightarrow>
            Write env cmd sel = (Inl e, [SelectServerLegacy (pinned cmd sel)], None)) \<and>
         (select_result env = None \<and> connection_result env = Some e \<longrightarrow>
            Write env cmd sel =
              (Inl e, [SelectServerLegacy (pinned cmd sel), ConnectionLegacy], None)) \<and>
         Write (env\<lparr> roundtrip_result := x \<rparr>) cmd sel = Write env cmd sel \<and>
         no_roundtrip (fst (snd (Write env cmd sel))) \<and>
         ConnClose \<notin> set (fst (snd (Write env cmd sel))) \<and>
         (\<exists>post. detached_write cmd out = [RoundTrip cmd, ConnClose] @ post)"
  using assms
  by (cases out) (auto simp: Write_def detached_write_def Let_def split: option.splits)

theorem Write_unacknowledged_witness:
  "\<not> AckWrite (WriteConcern cmd_unack) \<and>
   select_result env_up = None \<and> connection_result env_up = None \<and>
   Write env_up cmd_unack 0 =
     (Inl ErrUnacknowledgedWrite, [SelectServerLegacy 0, ConnectionLegacy, GoRoutine],
      Some (detached_write cmd_unack)) \<and>
   detached_write cmd_unack Panics = [RoundTrip cmd_unack, ConnClose, Recover]"
proof -
  have a: "\<not> AckWrite (WriteConcern cmd_unack)" "select_result env_up = None"
    "connection_result env_up = None" "pinned cmd_unack 0 = 0"
    by (simp_all add: cmd_unack_def cmd0_def AckWrite_def env_up_def pinned_def)
  from Write_unacknowledged [OF a(1), of env_up 0 "External 1" "Inr 42" Panics] a
  show ?thesis by (simp add: detached_write_def)
qed

text \<open>
  When server selection fails, the call returns the error of the selection and starts no
  goroutine.
\<close>

theorem Write_unacknowledged_counterexample:
  "\<not> AckWrite (WriteConcern cmd_unack) \<and>
   Write env_down cmd_unack 0 = (Inl (External 1), [SelectServerLegacy 0], None) \<and>
   fst (Write env_down cmd_unack 0) \<noteq> Inl ErrUnacknowledgedWrite"
  by (simp add: Write_def env_down_def env_up_def cmd_unack_def cmd0_def AckWrite_def pinned_def)

section \<open>Properties of the operation engine\<close>

subsection \<open>Retry classification\<close>

text \<open>
  The rows of \<open>TestOperation/retryable\<close>, with 6 as the least wire version that
  qualifies.
\<close>

lemma retryable_test_rows:
  "retryable 6 \<lparr> op_Deployment = \<lparr> SupportsRetry = False, Kind = Single \<rparr>, op_Client = None,
       op_WriteConcern = None, op_ReadPreference = None, op_RetryType = RetryNone \<rparr>
     \<lparr> srv_WireVersion = None, srv_Kind = RSPrimary \<rparr> = RetryNone"
  "retryable 6 (test_op True sess True RetryNone) descNotRetryable = RetryNone"
  "retryable 6 (test_op True (sess\<lparr> state := InProgress \<rparr>) True RetryNone) descRetryable = RetryNone"
  "retryable 6 (test_op True (sess\<lparr> state := Starting \<rparr>) True RetryNone) descRetryable = RetryNone"
  "retryable 6 (test_op True sess False RetryNone) descRetryable = RetryNone"
  "retryable 6 (test_op True sess True RetryWrite) descRetryable = RetryWrite"
  by (simp_all add: retryable_def test_op_def sess_def descRetryable_def descNotRetryable_def
      SessionsSupported_def txn_active_def TransactionInProgress_def TransactionStarting_def
      AckWrite_def)

text \<open>
  \<open>retrySupported\<close> of the legacy package is the condition under which a retryable write
  is classified as such, with the topology's session support in the place of the
  deployment's retry support.
\<close>

lemma retryable_retrySupported:
  "op_Client op = Some s \<Longrightarrow>
   (retryable minv op desc = RetryWrite) =
     (op_RetryType op = RetryWrite \<and>
      retrySupported minv (SupportsRetry (op_Deployment op)) (srv_WireVersion desc) s
        (op_WriteConcern op))"
  by (cases "op_RetryType op") (auto simp: retryable_def retrySupported_def txn_active_def)

text \<open>
  C2. The classification is none whenever the deployment does not support retry, or the
  wire version is below the minimum, or a transaction is starting or in progress on the
  session, or the write concern is unacknowledged. It is retryable-write exactly when the
  operation is configured as retryable-write, the deployment supports retry, the wire
  version suffices, the write concern is acknowledged and no transaction is active.
\<close>

theorem retryable_classification:
  "((\<not> SupportsRetry (op_Deployment op) \<or>
     \<not> SessionsSupported minv (srv_WireVersion desc) \<or>
     txn_active (op_Client op) \<or>
     \<not> AckWrite (op_WriteConcern op)) \<longrightarrow> retryable minv op desc = RetryNone) \<and>
   (retryable minv op desc = RetryWrite \<longleftrightarrow>
      op_RetryType op = RetryWrite \<and> SupportsRetry (op_Deployment op) \<and>
      SessionsSupported minv (srv_WireVersion desc) \<and> AckWrite (op_WriteConcern op) \<and>
      \<not> txn_active (op_Client op))"
  by (cases "op_RetryType op") (auto simp: retryable_def)

theorem retryable_classification_witness:
  "\<not> AckWrite (op_WriteConcern (test_op True sess False RetryWrite)) \<and>
   retryable 6 (test_op True sess False RetryWrite) descRetryable = RetryNone \<and>
   txn_active (op_Client (test_op True (sess\<lparr> state := Starting \<rparr>) True RetryWrite)) \<and>
   retryable 6 (test_op True (sess\<lparr> state := Starting \<rparr>) True RetryWrite) descRetryable = RetryNone \<and>
   op_RetryType (test_op True sess True RetryWrite) = RetryWrite \<and>
   SupportsRetry (op_Deployment (test_op True sess True RetryWrite)) \<and>
   SessionsSupported 6 (srv_WireVersion descRetryable) \<and>
   AckWrite (op_WriteConcern (test_op True sess True RetryWrite)) \<and>
   \<not> txn_active (op_Client (test_op True sess True RetryWrite)) \<and>
   retryable 6 (test_op True sess True RetryWrite) descRetryable = RetryWrite"
  using retryable_classification [of "test_op True sess False RetryWrite" 6 descRetryable]
    retryable_classification [of "test_op True (sess\<lparr> state := Starting \<rparr>) True RetryWrite" 6
      descRetryable]
    retryable_classification [of "test_op True sess True RetryWrite" 6 descRetryable]
  by (simp add: test_op_def sess_def descRetryable_def SessionsSupported_def txn_active_def
      TransactionInProgress_def TransactionStarting_def AckWrite_def)

subsection \<open>Round trip\<close>

text \<open>
  C3. A failing write and a failing read both give an error with exactly the labels
  TransientTransactionError and NetworkError; when both succeed, the bytes of the read
  come back unchanged and without an error.
\<close>

theorem roundTrip_labels:
  "(WriteWireMessage conn wm = Some e \<longrightarrow>
      roundTrip conn wm =
        ([], Some \<lparr> Message = e, Labels = [TransientTransactionError, NetworkError] \<rparr>)) \<and>
   (WriteWireMessage conn wm = None \<and> ReadWireMessage conn [] = (res, Some e) \<longrightarrow>
      roundTrip conn wm =
        ([], Some \<lparr> Message = e, Labels = [TransientTransactionError, NetworkError] \<rparr>)) \<and>
   (WriteWireMessage conn wm = None \<and> ReadWireMessage conn [] = (res, None) \<longrightarrow>
      roundTrip conn wm = (res, None))"
  by (simp add: roundTrip_def)

theorem roundTrip_labels_witness:
  "roundTrip (mock \<lparr> rWriteErr = Some ''write error'', rReadWM = [], rReadErr = None \<rparr>) [] =
     ([], Some \<lparr> Message = ''write error'',
                 Labels = [''TransientTransactionError'', ''NetworkError''] \<rparr>) \<and>
   roundTrip (mock \<lparr> rWriteErr = None, rReadWM = [], rReadErr = Some ''read error'' \<rparr>) [] =
     ([], Some \<lparr> Message = ''read error'',
                 Labels = [''TransientTransactionError'', ''NetworkError''] \<rparr>) \<and>
   roundTrip (mock \<lparr> rWriteErr = None, rReadWM = [1, 2, 3, 4], rReadErr = None \<rparr>) [] =
     ([1, 2, 3, 4], None)"
  using
    roundTrip_labels [of "mock \<lparr> rWriteErr = Some ''write error'', rReadWM = [], rReadErr = None \<rparr>"
      "[]" "''write error''" "[]"]
    roundTrip_labels [of "mock \<lparr> rWriteErr = None, rReadWM = [], rReadErr = Some ''read error'' \<rparr>"
      "[]" "''read error''" "[]"]
    roundTrip_labels [of "mock \<lparr> rWriteErr = None, rReadWM = [1, 2, 3, 4], rReadErr = None \<rparr>"
      "[]" "''x''" "[1, 2, 3, 4]"]
  by (simp add: mock_def TransientTransactionError_def NetworkError_def)

subsection \<open>Read-preference document\<close>

text \<open>The rows of \<open>TestOperation/createReadPref\<close>.\<close>

lemma createReadPref_test_rows:
  "createReadPref (rp_op None) Mongos Single False = None"
  "createReadPref (rp_op None) RSSecondary Single False = Some (mode_doc ''primaryPreferred'')"
  "createReadPref (rp_op (Some (pref PrimaryMode))) Mongos Sharded False = None"
  "createReadPref (rp_op (Some (pref PrimaryMode))) RSPrimary Single False =
     Some (mode_doc ''primaryPreferred'')"
  "createReadPref (rp_op (Some (pref PrimaryMode))) RSPrimary ReplicaSet False =
     Some (mode_doc ''primary'')"
  "createReadPref (rp_op (Some (pref PrimaryPreferredMode))) RSSecondary ReplicaSet False =
     Some (mode_doc ''primaryPreferred'')"
  "createReadPref (rp_op (Some (pref SecondaryPreferredMode))) Mongos Sharded True = None"
  "createReadPref (rp_op (Some (pref SecondaryPreferredMode))) RSSecondary ReplicaSet False =
     Some (mode_doc ''secondaryPreferred'')"
  "createReadPref (rp_op (Some (pref SecondaryMode))) RSSecondary ReplicaSet False =
     Some (mode_doc ''secondary'')"
  "createReadPref (rp_op (Some (pref NearestMode))) RSSecondary ReplicaSet False =
     Some (mode_doc ''nearest'')"
  "createReadPref
     (rp_op (Some ((pref SecondaryPreferredMode)
        \<lparr> TagSets := [[(''disk'', ''ssd''), (''use'', ''reporting'')]] \<rparr>)))
     RSSecondary ReplicaSet False =
     Some \<lparr> doc_mode = ''secondaryPreferred'',
            doc_tags = [[(''disk'', ''ssd''), (''use'', ''reporting'')]],
            doc_maxStalenessSeconds = None \<rparr>"
  "createReadPref
     (rp_op (Some ((pref SecondaryPreferredMode)\<lparr> MaxStaleness := Some (25 * second) \<rparr>)))
     RSSecondary ReplicaSet False =
     Some \<lparr> doc_mode = ''secondaryPreferred'', doc_tags = [],
            doc_maxStalenessSeconds = Some 25 \<rparr>"
  by (simp_all add: createReadPref_def rp_op_def pref_def mode_doc_def full_doc_def second_def)


subsection \<open>Cluster time\<close>















end
